theory Spec2Isabelle
  imports Main
begin

chapter \<open>Definitions\<close>

section \<open>JavaScript strings\<close>

text \<open>
  A string is a list of characters; a character stands for one code unit of the JavaScript
  string (the code units below 256). \<open>String.prototype.trim\<close> and the regular expression class
  \<open>\s\<close> remove white space and line terminators; in this range these are TAB, LF, VT, FF, CR,
  SPACE and NBSP.
\<close>

definition js_whitespace :: "char \<Rightarrow> bool" where
  "js_whitespace c =
     (c = CHR 0x09 \<or> c = CHR 0x0A \<or> c = CHR 0x0B \<or> c = CHR 0x0C \<or> c = CHR 0x0D \<or>
      c = CHR 0x20 \<or> c = CHR 0xA0)"

definition js_trim :: "string \<Rightarrow> string" where
  "js_trim s = rev (dropWhile js_whitespace (rev (dropWhile js_whitespace s)))"

text \<open>\<open>str.replaceAll(c, r)\<close> for a pattern \<open>c\<close> of one character: every occurrence of
  \<open>c\<close> is replaced by \<open>r\<close>, scanning left to right. None of the replacement strings of the
  source contains a dollar sign, so the replacement is taken literally.\<close>

primrec replaceAll :: "string \<Rightarrow> char \<Rightarrow> string \<Rightarrow> string" where
  "replaceAll [] c r = []"
| "replaceAll (x # xs) c r = (if x = c then r else [x]) @ replaceAll xs c r"

text \<open>\<open>String.prototype.toLowerCase\<close> on the ASCII letters.\<close>

definition toLowerCase_char :: "char \<Rightarrow> char" where
  "toLowerCase_char c =
     (case map_of (zip ''ABCDEFGHIJKLMNOPQRSTUVWXYZ'' ''abcdefghijklmnopqrstuvwxyz'') c of
        Some l \<Rightarrow> l
      | None \<Rightarrow> c)"

definition toLowerCase :: "string \<Rightarrow> string" where
  "toLowerCase s = map toLowerCase_char s"


section \<open>Contact backend: start-up configuration\<close>

text \<open>
  \<open>process.env\<close> after \<open>dotenv.config()\<close>: a variable is absent or holds a string. The
  destructuring gives \<open>PORT\<close>, \<open>NODE_ENV\<close> and \<open>CORS_ORIGINS\<close> their defaults when they are
  absent. \<open>!v\<close> holds of an absent variable and of the empty string.
\<close>

type_synonym env = "string \<Rightarrow> string option"

definition js_not :: "string option \<Rightarrow> bool" where
  "js_not v = (case v of None \<Rightarrow> True | Some s \<Rightarrow> s = [])"

record config =
  PORT :: string
  NODE_ENV :: string
  CORS_ORIGINS :: string
  SMTP_HOST :: string
  SMTP_PORT :: string
  SMTP_SECURE :: bool
  SMTP_USER :: string
  SMTP_PASS :: string
  MAIL_TO :: string
  MAIL_FROM :: string

text \<open>\<open>String(SMTP_SECURE).toLowerCase() === "true"\<close>; \<open>String(undefined)\<close> is
  \<open>"undefined"\<close>.\<close>

definition secure_flag :: "string option \<Rightarrow> bool" where
  "secure_flag v =
     (toLowerCase (case v of None \<Rightarrow> ''undefined'' | Some s \<Rightarrow> s) = ''true'')"

definition with_default :: "string option \<Rightarrow> string \<Rightarrow> string" where
  "with_default v d = (case v of None \<Rightarrow> d | Some s \<Rightarrow> s)"

text \<open>The process after the module has been evaluated: it has left with \<open>process.exit(1)\<close>
  before \<open>express()\<close> was called, or it listens with the configuration it read.\<close>

datatype process = Exited nat | Listening config

definition startup :: "env \<Rightarrow> process" where
  "startup e =
     (if js_not (e ''SMTP_HOST'') \<or> js_not (e ''SMTP_PORT'') \<or> js_not (e ''SMTP_USER'') \<or>
         js_not (e ''SMTP_PASS'') \<or> js_not (e ''MAIL_TO'') \<or> js_not (e ''MAIL_FROM'')
      then Exited 1
      else Listening \<lparr>
        PORT = with_default (e ''PORT'') ''4000'',
        NODE_ENV = with_default (e ''NODE_ENV'') ''development'',
        CORS_ORIGINS = with_default (e ''CORS_ORIGINS'') ''http://localhost:3000'',
        SMTP_HOST = the (e ''SMTP_HOST''),
        SMTP_PORT = the (e ''SMTP_PORT''),
        SMTP_SECURE = secure_flag (e ''SMTP_SECURE''),
        SMTP_USER = the (e ''SMTP_USER''),
        SMTP_PASS = the (e ''SMTP_PASS''),
        MAIL_TO = the (e ''MAIL_TO''),
        MAIL_FROM = the (e ''MAIL_FROM'') \<rparr>)"

text \<open>Only a listening process accepts a request.\<close>

fun accepts_requests :: "process \<Rightarrow> bool" where
  "accepts_requests (Exited n) = False"
| "accepts_requests (Listening c) = True"


section \<open>Contact backend: HTML escaping\<close>

definition escapeHtml :: "string \<Rightarrow> string" where
  "escapeHtml str =
     replaceAll (replaceAll (replaceAll (replaceAll (replaceAll str
       (CHR ''&'') ''&amp;'')
       (CHR ''<'') ''&lt;'')
       (CHR ''>'') ''&gt;'')
       (CHR 0x22) ''&quot;'')
       (CHR 0x27) ''&#039;''"

text \<open>The entity the specification gives each character: ampersand, angle brackets and the
  two quotes are written as entities, every other character stands for itself.\<close>

definition html_entity :: "char \<Rightarrow> string" where
  "html_entity c =
     (if c = CHR ''&'' then ''&amp;''
      else if c = CHR ''<'' then ''&lt;''
      else if c = CHR ''>'' then ''&gt;''
      else if c = CHR 0x22 then ''&quot;''
      else if c = CHR 0x27 then ''&#039;''
      else [c])"


section \<open>Contact backend: field validation\<close>

text \<open>
  The request body as the handler sees it: four strings (a field that is absent from the
  request is read as the empty string by the validation chains).
\<close>

record contact_body =
  name :: string
  email :: string
  subject :: string
  message :: string

text \<open>
  The chains are built from the validators and sanitizers of express-validator. \<open>trim\<close> and
  \<open>isLength\<close> are written out; \<open>isEmail\<close> and \<open>normalizeEmail\<close> are taken as parameters.
\<close>

record validator_lib =
  isEmail :: "string \<Rightarrow> bool"
  normalizeEmail :: "string \<Rightarrow> string"

definition isLength :: "nat \<Rightarrow> nat \<Rightarrow> string \<Rightarrow> bool" where
  "isLength mn mx s = (mn \<le> length s \<and> length s \<le> mx)"

text \<open>An entry of \<open>errors.array()\<close>: the field, the message given by \<open>withMessage\<close> and
  the value the validator saw.\<close>

record validation_error =
  path :: string
  msg :: string
  val :: string

text \<open>Each chain sanitizes its field of the body and reports a failing validator; the
  chains run in the order of the array, and \<open>validationResult\<close> collects what they report.
  \<open>name\<close>, \<open>subject\<close> and \<open>message\<close> are trimmed before their length is checked; \<open>email\<close> is
  checked and then normalized.\<close>

definition name_chain :: "contact_body \<Rightarrow> validation_error list \<times> contact_body" where
  "name_chain b =
     (let v = js_trim (name b)
      in (if isLength 2 100 v then []
          else [\<lparr>path = ''name'', msg = ''Name is required'', val = v\<rparr>],
          b\<lparr>name := v\<rparr>))"

definition email_chain ::
  "validator_lib \<Rightarrow> contact_body \<Rightarrow> validation_error list \<times> contact_body" where
  "email_chain L b =
     (let v = email b
      in (if isEmail L v then []
          else [\<lparr>path = ''email'', msg = ''Valid email is required'', val = v\<rparr>],
          b\<lparr>email := normalizeEmail L v\<rparr>))"

definition subject_chain :: "contact_body \<Rightarrow> validation_error list \<times> contact_body" where
  "subject_chain b =
     (let v = js_trim (subject b)
      in (if isLength 2 150 v then []
          else [\<lparr>path = ''subject'', msg = ''Subject is required'', val = v\<rparr>],
          b\<lparr>subject := v\<rparr>))"

definition message_chain :: "contact_body \<Rightarrow> validation_error list \<times> contact_body" where
  "message_chain b =
     (let v = js_trim (message b)
      in (if isLength 5 5000 v then []
          else [\<lparr>path = ''message'', msg = ''Message is required'', val = v\<rparr>],
          b\<lparr>message := v\<rparr>))"

definition run_chains ::
  "validator_lib \<Rightarrow> contact_body \<Rightarrow> validation_error list \<times> contact_body" where
  "run_chains L b =
     (let (e1, b1) = name_chain b;
          (e2, b2) = email_chain L b1;
          (e3, b3) = subject_chain b2;
          (e4, b4) = message_chain b3
      in (e1 @ e2 @ e3 @ e4, b4))"

text \<open>The constraints as the specification words them: which fields of a body violate
  theirs, in the order name, email, subject, message.\<close>

definition violated_fields :: "validator_lib \<Rightarrow> contact_body \<Rightarrow> string list" where
  "violated_fields L b =
     (if 2 \<le> length (js_trim (name b)) \<and> length (js_trim (name b)) \<le> 100
      then [] else [''name'']) @
     (if isEmail L (email b) then [] else [''email'']) @
     (if 2 \<le> length (js_trim (subject b)) \<and> length (js_trim (subject b)) \<le> 150
      then [] else [''subject'']) @
     (if 5 \<le> length (js_trim (message b)) \<and> length (js_trim (message b)) \<le> 5000
      then [] else [''message''])"


section \<open>Contact backend: the handler\<close>

record mail =
  m_from :: string
  m_to :: string
  m_replyTo :: string
  m_subject :: string
  m_text :: string
  m_html :: string

datatype json_body =
    OkMessage string
  | FailErrors "validation_error list"
  | FailMessage string
  | TooManyRequests
  | ErrorPage

record response =
  status :: nat
  body :: json_body

definition render_text :: "contact_body \<Rightarrow> string" where
  "render_text b =
     js_trim (''\<newline>New message from your portfolio:\<newline>\<newline>Name: '' @ name b @
       ''\<newline>Email: '' @ email b @
       ''\<newline>Subject: '' @ subject b @
       ''\<newline>\<newline>Message:\<newline>'' @ message b @ ''\<newline>'')"

definition render_html :: "contact_body \<Rightarrow> string" where
  \<open>render_html b =
     js_trim (''\<newline><div style="font-family:system-ui,-apple-system,Segoe UI,Roboto,Arial,sans-serif">\<newline>  <h2>New portfolio contact</h2>\<newline>  <p><strong>Name:</strong> '' @
       escapeHtml (name b) @
       ''</p>\<newline>  <p><strong>Email:</strong> '' @
       escapeHtml (email b) @
       ''</p>\<newline>  <p><strong>Subject:</strong> '' @
       escapeHtml (subject b) @
       ''</p>\<newline>  <p><strong>Message:</strong></p>\<newline>  <pre style="white-space:pre-wrap;font-family:inherit">'' @
       escapeHtml (message b) @
       ''</pre>\<newline></div>'')\<close>

text \<open>The subject line starts with the mailbox emoji U+1F4EB, written here as its four
  bytes in UTF-8.\<close>

definition subject_line :: "string \<Rightarrow> string" where
  "subject_line s = [CHR 0xF0, CHR 0x9F, CHR 0x93, CHR 0xAB] @ '' Portfolio Contact: '' @ s"

definition build_mail :: "config \<Rightarrow> contact_body \<Rightarrow> mail" where
  "build_mail cfg b =
     \<lparr> m_from = MAIL_FROM cfg,
       m_to = MAIL_TO cfg,
       m_replyTo = email b,
       m_subject = subject_line (subject b),
       m_text = render_text b,
       m_html = render_html b \<rparr>"

text \<open>
  The route: the validation chains, then the handler body. \<open>transport m\<close> tells whether
  \<open>transporter.sendMail\<close> resolves for the mail \<open>m\<close> (it throws otherwise). The state is the
  list of the calls of \<open>sendMail\<close> made so far, oldest first.
\<close>

definition contact_handler ::
  "config \<Rightarrow> validator_lib \<Rightarrow> (mail \<Rightarrow> bool) \<Rightarrow> contact_body \<Rightarrow> mail list
     \<Rightarrow> response \<times> mail list" where
  "contact_handler cfg L transport raw outbox =
     (let (errors, b) = run_chains L raw
      in if errors \<noteq> [] then (\<lparr>status = 400, body = FailErrors errors\<rparr>, outbox)
         else let m = build_mail cfg b
              in if transport m
                 then (\<lparr>status = 200, body = OkMessage ''Sent''\<rparr>, outbox @ [m])
                 else (\<lparr>status = 500, body = FailMessage ''Failed to send email''\<rparr>,
                       outbox @ [m]))"


section \<open>Contact backend: the rate limiter in front of the route\<close>

record rate_window =
  hits :: nat
  window_start :: nat

type_synonym rate_state = "string \<Rightarrow> rate_window option"

text \<open>
  Modelled from the spec: the counting of \<open>express-rate-limit\<close>, which is not among the
  sources. "RateLimitWindow: process-wide counter state per client identity (commonly source
  address), holding a request count and window-start timestamp, reset every fixed interval
  (60 seconds), capping requests (10) within that interval. Lifecycle: created lazily on first
  request from an identity, expires/reset on window rollover." Times are in milliseconds.
  \<open>current_window\<close> is the window a request arriving at \<open>now\<close> falls into: the caller's open
  window, or a new one when the caller has none or the old one has run out.
\<close>

definition current_window :: "nat \<Rightarrow> rate_state \<Rightarrow> string \<Rightarrow> nat \<Rightarrow> rate_window" where
  "current_window windowMs st ident now =
     (case st ident of
        None \<Rightarrow> \<lparr>hits = 0, window_start = now\<rparr>
      | Some w \<Rightarrow>
          if window_start w + windowMs \<le> now then \<lparr>hits = 0, window_start = now\<rparr> else w)"

text \<open>
  Modelled from the spec: the middleware \<open>rateLimit({windowMs, limit})\<close> of
  \<open>express-rate-limit\<close>, not among the sources. It counts the request in the caller's
  current window and lets it pass while the count is within the limit ("request rate for the
  caller's identity has not exceeded 10 per rolling 60-second window; if exceeded, fail with
  RateLimited and no further processing").
\<close>

definition rateLimit ::
  "nat \<Rightarrow> nat \<Rightarrow> rate_state \<Rightarrow> string \<Rightarrow> nat \<Rightarrow> bool \<times> rate_state" where
  "rateLimit windowMs limit st ident now =
     (let w = current_window windowMs st ident now;
          w' = w\<lparr>hits := hits w + 1\<rparr>
      in (hits w' \<le> limit, st(ident := Some w')))"

text \<open>
  The middleware in front of the limiter, in the order of the source. \<open>helmet\<close> stops no
  request. The CORS check lets a request pass when it has no \<open>Origin\<close> header (or an empty
  one) or when its origin is one of \<open>CORS_ORIGINS.split(",").map((s) => s.trim())\<close>;
  otherwise it hands an error on, and the request is answered 500 without reaching anything
  mounted later. \<open>express.json\<close> hands an error on for a body that is not well-formed JSON
  (400) or is longer than 200kb (413); a body it does not parse is the empty object, whose
  four fields are absent.
\<close>

fun split_on :: "string \<Rightarrow> char \<Rightarrow> string list" where
  "split_on [] c = [[]]"
| "split_on (x # xs) c =
     (if x = c then [] # split_on xs c
      else (case split_on xs c of
              [] \<Rightarrow> [[x]]
            | y # ys \<Rightarrow> (x # y) # ys))"

definition allowed :: "config \<Rightarrow> string list" where
  "allowed cfg = map js_trim (split_on (CORS_ORIGINS cfg) (CHR '',''))"

definition cors_allows :: "config \<Rightarrow> string option \<Rightarrow> bool" where
  "cors_allows cfg origin_header =
     (case origin_header of
        None \<Rightarrow> True
      | Some og \<Rightarrow> og = [] \<or> og \<in> set (allowed cfg))"

datatype parsed_body = Parsed contact_body | Malformed | TooLarge

text \<open>A request: the caller's identity, the time it arrives, its \<open>Origin\<close> header and what
  \<open>express.json\<close> makes of its body.\<close>

record request =
  ident :: string
  arrival :: nat
  origin :: "string option"
  payload :: parsed_body

record server =
  windows :: rate_state
  sent_mail :: "mail list"

text \<open>
  The application as the source mounts it: \<open>app.use(helmet())\<close>, \<open>app.use(cors(...))\<close>,
  \<open>app.use(express.json({limit: "200kb"}))\<close>, then \<open>app.use("/api/contact",
  rateLimit({windowMs: 60 * 1000, limit: 10}))\<close>, then \<open>app.post("/api/contact", ...)\<close>. A
  request that is stopped is not seen by what is mounted after: one stopped by the CORS check
  or the body parser is not counted by the limiter, and one the limiter turns away never
  reaches the validation chains or the handler.
\<close>

definition api_contact ::
  "config \<Rightarrow> validator_lib \<Rightarrow> (mail \<Rightarrow> bool) \<Rightarrow> request \<Rightarrow> server \<Rightarrow> response \<times> server" where
  "api_contact cfg L transport rq s =
     (if \<not> cors_allows cfg (origin rq) then (\<lparr>status = 500, body = ErrorPage\<rparr>, s)
      else case payload rq of
        Malformed \<Rightarrow> (\<lparr>status = 400, body = ErrorPage\<rparr>, s)
      | TooLarge \<Rightarrow> (\<lparr>status = 413, body = ErrorPage\<rparr>, s)
      | Parsed b \<Rightarrow>
          (let (pass, ws) = rateLimit (60 * 1000) 10 (windows s) (ident rq) (arrival rq)
           in if \<not> pass
              then (\<lparr>status = 429, body = TooManyRequests\<rparr>, s\<lparr>windows := ws\<rparr>)
              else let (r, outbox) = contact_handler cfg L transport b (sent_mail s)
                   in (r, \<lparr>windows = ws, sent_mail = outbox\<rparr>)))"

text \<open>Requests are served one after the other.\<close>

fun serve ::
  "config \<Rightarrow> validator_lib \<Rightarrow> (mail \<Rightarrow> bool) \<Rightarrow> request list \<Rightarrow> server
     \<Rightarrow> response list \<times> server" where
  "serve cfg L transport [] s = ([], s)"
| "serve cfg L transport (rq # rqs) s =
     (let (r, s1) = api_contact cfg L transport rq s;
          (rs, s2) = serve cfg L transport rqs s1
      in (r # rs, s2))"

text \<open>An instance of the two library parameters for evaluating the model on examples:
  an address has an at sign, and normalizing lower-cases it. On the addresses used below
  this is what the library answers.\<close>

definition example_lib :: validator_lib where
  "example_lib = \<lparr> isEmail = (\<lambda>s. CHR ''@'' \<in> set s), normalizeEmail = toLowerCase \<rparr>"

definition example_config :: config where
  "example_config =
     \<lparr> PORT = ''4000'', NODE_ENV = ''development'', CORS_ORIGINS = ''http://localhost:3000'',
       SMTP_HOST = ''smtp.example.com'', SMTP_PORT = ''587'', SMTP_SECURE = False,
       SMTP_USER = ''user'', SMTP_PASS = ''pass'',
       MAIL_TO = ''owner@example.com'', MAIL_FROM = ''site@example.com'' \<rparr>"


text \<open>A transport for which every \<open>sendMail\<close> resolves, and an environment that sets the six
  variables the start-up check reads and nothing else.\<close>

definition reliable_transport :: "mail \<Rightarrow> bool" where
  "reliable_transport m = True"

definition example_env :: env where
  "example_env = map_of
     [(''SMTP_HOST'', ''smtp.example.com''), (''SMTP_PORT'', ''587''), (''SMTP_USER'', ''user''),
      (''SMTP_PASS'', ''pass''), (''MAIL_TO'', ''owner@example.com''),
      (''MAIL_FROM'', ''site@example.com'')]"

definition example_request :: "nat \<Rightarrow> request" where
  "example_request t =
     \<lparr> ident = ''203.0.113.7'', arrival = t, origin = None,
       payload = Parsed
         \<lparr>name = ''Al'', email = ''a@b.com'', subject = ''Hi'', message = ''hello!''\<rparr> \<rparr>"

text \<open>Ten requests of one caller, a second apart; ten more a minute later; eleven
  requests of the caller sent from a page of another site; and a server that has seen no
  request.\<close>

definition ten_requests :: "request list" where
  "ten_requests = map example_request [0, 1000, 2000, 3000, 4000, 5000, 6000, 7000, 8000, 9000]"

definition ten_later :: "request list" where
  "ten_later = map example_request
     [60000, 61000, 62000, 63000, 64000, 65000, 66000, 67000, 68000, 69000]"

definition cross_origin :: "request \<Rightarrow> request" where
  "cross_origin rq = rq\<lparr>origin := Some ''http://other.example''\<rparr>"

definition eleven_cross_origin :: "request list" where
  "eleven_cross_origin = map cross_origin (ten_requests @ [example_request 10000])"

definition fresh_server :: server where
  "fresh_server = \<lparr>windows = (\<lambda>i. None), sent_mail = []\<rparr>"

text \<open>
  The words of the claim about the limiter. A request reaches the limiter when the CORS
  check and the body parser let it pass; the requests of a run that count for a caller are
  the caller's requests that reach the limiter; a caller's window is closed at a time when
  the caller has no window or 60 seconds have passed since the start of its window.
\<close>

definition reaches_limiter :: "config \<Rightarrow> request \<Rightarrow> bool" where
  "reaches_limiter cfg rq =
     (cors_allows cfg (origin rq)
      \<and> (case payload rq of Parsed b \<Rightarrow> True | Malformed \<Rightarrow> False | TooLarge \<Rightarrow> False))"

definition counted :: "config \<Rightarrow> string \<Rightarrow> request list \<Rightarrow> request list" where
  "counted cfg i rqs = filter (\<lambda>r. ident r = i \<and> reaches_limiter cfg r) rqs"

definition window_closed :: "rate_state \<Rightarrow> string \<Rightarrow> nat \<Rightarrow> bool" where
  "window_closed st i now =
     (case st i of None \<Rightarrow> True | Some w \<Rightarrow> window_start w + 60 * 1000 \<le> now)"


section \<open>Photo pipeline: image normalization\<close>

text \<open>
  \<open>Math.round(a / b)\<close> for natural numbers \<open>a\<close> and \<open>b > 0\<close>: the quotient rounded to the
  nearest integer, a half rounded up, which is the floor of \<open>a / b + 1 / 2\<close>.
\<close>

definition Math_round_div :: "nat \<Rightarrow> nat \<Rightarrow> nat" where
  "Math_round_div a b = (2 * a + b) div (2 * b)"

text \<open>A decoded image, and a canvas: the dimensions and the picture (an identifier of what
  is drawn).\<close>

record surface =
  width :: nat
  height :: nat
  picture :: nat

definition drawToCanvas :: "surface \<Rightarrow> nat \<Rightarrow> surface" where
  "drawToCanvas img maxSize =
     (if width img > height img
      then (if width img > maxSize
            then img\<lparr>height := Math_round_div (height img * maxSize) (width img),
                     width := maxSize\<rparr>
            else img)
      else (if height img > maxSize
            then img\<lparr>width := Math_round_div (width img * maxSize) (height img),
                     height := maxSize\<rparr>
            else img))"


section \<open>Photo pipeline: values, blobs and the object store\<close>

record blob =
  media_type :: string
  bytes :: "nat list"

text \<open>The values the page handles. All numbers that matter here are integers.\<close>

datatype js_value =
    Undefined
  | Null
  | JBool bool
  | JNumber int
  | JString string
  | Blob blob

fun truthy :: "js_value \<Rightarrow> bool" where
  "truthy Undefined = False"
| "truthy Null = False"
| "truthy (JBool b) = b"
| "truthy (JNumber n) = (n \<noteq> 0)"
| "truthy (JString s) = (s \<noteq> [])"
| "truthy (Blob b) = True"

text \<open>\<open>a || b\<close>\<close>

definition js_or :: "js_value \<Rightarrow> js_value \<Rightarrow> js_value" where
  "js_or a b = (if truthy a then a else b)"

text \<open>
  The object store \<open>photos\<close> of the database \<open>portfolio-db\<close> maps keys to values. What the
  database itself does is given to each operation: it works (\<open>None\<close>), \<open>indexedDB.open\<close>
  fails, or the request or its transaction fails. A failure rejects the promise and leaves
  the store as it was (a transaction is atomic).
\<close>

datatype idb_fault = OpenFails | TransactionFails

type_synonym object_store = "string \<Rightarrow> js_value option"

definition idbSet ::
  "idb_fault option \<Rightarrow> string \<Rightarrow> js_value \<Rightarrow> object_store \<Rightarrow> (idb_fault + unit) \<times> object_store" where
  "idbSet io key v st =
     (case io of Some f \<Rightarrow> (Inl f, st) | None \<Rightarrow> (Inr (), st(key := Some v)))"

definition idbGet :: "idb_fault option \<Rightarrow> string \<Rightarrow> object_store \<Rightarrow> idb_fault + js_value" where
  "idbGet io key st =
     (case io of
        Some f \<Rightarrow> Inl f
      | None \<Rightarrow> Inr (js_or (case st key of None \<Rightarrow> Undefined | Some v \<Rightarrow> v) Null))"

definition idbDelete ::
  "idb_fault option \<Rightarrow> string \<Rightarrow> object_store \<Rightarrow> (idb_fault + unit) \<times> object_store" where
  "idbDelete io key st =
     (case io of Some f \<Rightarrow> (Inl f, st) | None \<Rightarrow> (Inr (), st(key := None)))"


section \<open>Photo pipeline: object URLs and the page\<close>

text \<open>
  What an \<open>img\<close> element shows: the bundled default picture or an object URL. An object
  URL is an identifier. The state of the page: the two pieces of component state, the ref
  that tracks the object URL made for a stored blob, the object store, and the URLs of the
  document: \<open>objectUrls\<close> holds the blob of every URL that still resolves, and \<open>nextUrl\<close>
  is the identifier the next URL gets.
\<close>

datatype pic_src = DefaultProfile | ObjectUrl nat

record page =
  profilePicUrl :: pic_src
  photoError :: string
  lastObjectUrlRef :: "nat option"
  photos :: object_store
  objectUrls :: "nat \<Rightarrow> blob option"
  nextUrl :: nat

datatype js_error = TypeError | ImageError | StoreError idb_fault

text \<open>\<open>URL.createObjectURL\<close> throws a \<open>TypeError\<close> for an argument that is not a blob.\<close>

definition createObjectURL :: "js_value \<Rightarrow> page \<Rightarrow> js_error + nat \<times> page" where
  "createObjectURL v pg =
     (case v of
        Blob b \<Rightarrow>
          Inr (nextUrl pg,
               pg\<lparr>objectUrls := (objectUrls pg)(nextUrl pg := Some b),
                  nextUrl := Suc (nextUrl pg)\<rparr>)
      | _ \<Rightarrow> Inl TypeError)"

definition revokeObjectURL :: "nat \<Rightarrow> page \<Rightarrow> page" where
  "revokeObjectURL u pg = pg\<lparr>objectUrls := (objectUrls pg)(u := None)\<rparr>"

text \<open>
  What the browser does with pictures: \<open>decode\<close> is the loading of a file into an \<open>Image\<close>
  (\<open>None\<close>: \<open>onerror\<close> fires), \<open>encode\<close> is the JPEG encoder behind \<open>canvas.toBlob\<close> at
  quality 0.85 (\<open>None\<close>: the encoder fails). \<open>toBlob\<close> hands its callback \<open>null\<close> when the
  canvas has no pixels or the encoder fails.
\<close>

record browser =
  decode :: "blob \<Rightarrow> surface option"
  encode :: "surface \<Rightarrow> nat list option"

definition fileToImage :: "browser \<Rightarrow> blob \<Rightarrow> page \<Rightarrow> (js_error + surface) \<times> page" where
  "fileToImage br file pg =
     (case createObjectURL (Blob file) pg of
        Inl e \<Rightarrow> (Inl e, pg)
      | Inr (url, pg1) \<Rightarrow>
          (case decode br file of
             Some img \<Rightarrow> (Inr img, revokeObjectURL url pg1)
           | None \<Rightarrow> (Inl ImageError, revokeObjectURL url pg1)))"

definition canvasToBlob :: "browser \<Rightarrow> surface \<Rightarrow> js_value" where
  "canvasToBlob br canvas =
     (if width canvas = 0 \<or> height canvas = 0 then Null
      else case encode br canvas of
             None \<Rightarrow> Null
           | Some bs \<Rightarrow> Blob \<lparr>media_type = ''image/jpeg'', bytes = bs\<rparr>)"

definition compressFileToBlob ::
  "browser \<Rightarrow> blob \<Rightarrow> page \<Rightarrow> (js_error + js_value) \<times> page" where
  "compressFileToBlob br file pg =
     (case fileToImage br file pg of
        (Inl e, pg1) \<Rightarrow> (Inl e, pg1)
      | (Inr img, pg1) \<Rightarrow> (Inr (canvasToBlob br (drawToCanvas img 768)), pg1))"

text \<open>The four lines that the mount effect and \<open>handlePhotoPick\<close> share: the URL just made
  replaces the tracked one, which is revoked first, and is shown.\<close>

definition show_url :: "nat \<Rightarrow> page \<Rightarrow> page" where
  "show_url url pg =
     (let pg1 = (case lastObjectUrlRef pg of
                   Some u \<Rightarrow> revokeObjectURL u pg
                 | None \<Rightarrow> pg)
      in pg1\<lparr>lastObjectUrlRef := Some url, profilePicUrl := ObjectUrl url\<rparr>)"

definition load_failed :: "page \<Rightarrow> page" where
  "load_failed pg = pg\<lparr>photoError := ''Couldn'' @ [CHR 0x27] @ ''t load saved photo.''\<rparr>"

text \<open>The effect run on mount.\<close>

definition mount_load :: "idb_fault option \<Rightarrow> page \<Rightarrow> page" where
  "mount_load io pg =
     (case idbGet io ''profilePic'' (photos pg) of
        Inl f \<Rightarrow> load_failed pg
      | Inr v \<Rightarrow>
          if truthy v
          then (case createObjectURL v pg of
                  Inl e \<Rightarrow> load_failed pg
                | Inr (url, pg1) \<Rightarrow> show_url url pg1)
          else pg)"

text \<open>The clean-up run on unmount.\<close>

definition unmount :: "page \<Rightarrow> page" where
  "unmount pg =
     (case lastObjectUrlRef pg of
        Some u \<Rightarrow> revokeObjectURL u pg
      | None \<Rightarrow> pg)"

definition save_failed :: "page \<Rightarrow> page" where
  "save_failed pg =
     pg\<lparr>photoError := ''Failed to save image. Try another image (preferably under ~5MB).''\<rparr>"

definition handlePhotoPick :: "browser \<Rightarrow> idb_fault option \<Rightarrow> blob \<Rightarrow> page \<Rightarrow> page" where
  "handlePhotoPick br io file pg =
     (case compressFileToBlob br file (pg\<lparr>photoError := []\<rparr>) of
        (Inl e, pg1) \<Rightarrow> save_failed pg1
      | (Inr v, pg1) \<Rightarrow>
          (case idbSet io ''profilePic'' v (photos pg1) of
             (Inl f, st) \<Rightarrow> save_failed pg1
           | (Inr u, st) \<Rightarrow>
               (case createObjectURL v (pg1\<lparr>photos := st\<rparr>) of
                  Inl e \<Rightarrow> save_failed (pg1\<lparr>photos := st\<rparr>)
                | Inr (url, pg2) \<Rightarrow> show_url url pg2)))"

definition removePhoto :: "idb_fault option \<Rightarrow> page \<Rightarrow> page" where
  "removePhoto io pg =
     (let pg1 = pg\<lparr>photos := snd (idbDelete io ''profilePic'' (photos pg))\<rparr>;
          pg2 = (case lastObjectUrlRef pg1 of
                   Some u \<Rightarrow> (revokeObjectURL u pg1)\<lparr>lastObjectUrlRef := None\<rparr>
                 | None \<Rightarrow> pg1)
      in pg2\<lparr>profilePicUrl := DefaultProfile\<rparr>)"

text \<open>
  The life of the component: it mounts on a page that shows the default picture and has
  made no object URL, the saved photo is loaded, the user picks and removes photos, and the
  component unmounts.
\<close>

definition initial_page :: "object_store \<Rightarrow> nat \<Rightarrow> page" where
  "initial_page st n =
     \<lparr> profilePicUrl = DefaultProfile, photoError = [], lastObjectUrlRef = None,
       photos = st, objectUrls = (\<lambda>u. None), nextUrl = n \<rparr>"

datatype event =
    PhotoPick blob "idb_fault option"
  | RemovePhoto "idb_fault option"

fun step :: "browser \<Rightarrow> event \<Rightarrow> page \<Rightarrow> page" where
  "step br (PhotoPick file io) pg = handlePhotoPick br io file pg"
| "step br (RemovePhoto io) pg = removePhoto io pg"

definition mounted :: "browser \<Rightarrow> idb_fault option \<Rightarrow> event list \<Rightarrow> page \<Rightarrow> page" where
  "mounted br io evs pg = foldl (\<lambda>p ev. step br ev p) (mount_load io pg) evs"


text \<open>
  The object URLs that still resolve, and what the picture shows for a tracked URL. The
  page is \<open>tracked\<close> when the only URL that may resolve is the one the ref holds, that URL
  does resolve and was made on this page, and it is the picture shown.
\<close>

definition live_urls :: "page \<Rightarrow> nat set" where
  "live_urls pg = {u. objectUrls pg u \<noteq> None}"

fun shown_for :: "nat option \<Rightarrow> pic_src" where
  "shown_for None = DefaultProfile"
| "shown_for (Some u) = ObjectUrl u"

definition tracked :: "page \<Rightarrow> bool" where
  "tracked pg =
     ((\<forall>u b. objectUrls pg u = Some b \<longrightarrow> lastObjectUrlRef pg = Some u)
      \<and> (\<forall>u. lastObjectUrlRef pg = Some u \<longrightarrow> objectUrls pg u \<noteq> None \<and> u < nextUrl pg)
      \<and> profilePicUrl pg = shown_for (lastObjectUrlRef pg))"

text \<open>A browser for evaluating the model on examples: a file of three numbers decodes to
  the image of that width, height and picture, any other file does not decode; the encoder
  never fails.\<close>

definition example_browser :: browser where
  "example_browser =
     \<lparr> decode = (\<lambda>f. case bytes f of
                       [w, h, p] \<Rightarrow> Some \<lparr>width = w, height = h, picture = p\<rparr>
                     | _ \<Rightarrow> None),
       encode = (\<lambda>c. Some [width c, height c, picture c]) \<rparr>"

definition example_file :: "nat \<Rightarrow> nat \<Rightarrow> nat \<Rightarrow> blob" where
  "example_file w h p = \<lparr>media_type = ''image/png'', bytes = [w, h, p]\<rparr>"

definition stored_photo :: blob where
  "stored_photo = \<lparr>media_type = ''image/jpeg'', bytes = [768, 576, 1]\<rparr>"

text \<open>The page after it has mounted with \<open>stored_photo\<close> saved by an earlier visit.\<close>

definition example_page :: page where
  "example_page =
     mounted example_browser None []
       (initial_page ((\<lambda>k. None)(''profilePic'' := Some (Blob stored_photo))) 0)"


chapter \<open>Properties\<close>

section \<open>HTML escaping\<close>

lemma replaceAll_append:
  "replaceAll (xs @ ys) c r = replaceAll xs c r @ replaceAll ys c r"
  by (induction xs) simp_all

lemma escapeHtml_Nil: "escapeHtml [] = []"
  by (simp add: escapeHtml_def)

lemma escapeHtml_Cons: "escapeHtml (x # xs) = html_entity x @ escapeHtml xs"
  by (simp add: escapeHtml_def html_entity_def replaceAll_append)

lemma escapeHtml_concat_map: "escapeHtml s = concat (map html_entity s)"
  by (induction s) (simp_all add: escapeHtml_Nil escapeHtml_Cons)

lemma html_entity_no_markup:
  "set (html_entity c) \<inter> {CHR ''<'', CHR ''>'', CHR 0x22, CHR 0x27} = {}"
  by (simp add: html_entity_def)

lemma escapeHtml_no_markup:
  "set (escapeHtml s) \<inter> {CHR ''<'', CHR ''>'', CHR 0x22, CHR 0x27} = {}"
  using html_entity_no_markup by (auto simp: escapeHtml_concat_map)

lemma render_html_eq: \<open>render_html b =
    ''<div style="font-family:system-ui,-apple-system,Segoe UI,Roboto,Arial,sans-serif">\<newline>  <h2>New portfolio contact</h2>\<newline>  <p><strong>Name:</strong> '' @
       escapeHtml (name b) @
       ''</p>\<newline>  <p><strong>Email:</strong> '' @
       escapeHtml (email b) @
       ''</p>\<newline>  <p><strong>Subject:</strong> '' @
       escapeHtml (subject b) @
       ''</p>\<newline>  <p><strong>Message:</strong></p>\<newline>  <pre style="white-space:pre-wrap;font-family:inherit">'' @
       escapeHtml (message b) @
       ''</pre>\<newline></div>''\<close>
  by (simp add: render_html_def js_trim_def js_whitespace_def)

text \<open>
  Claim C3. The sequence of five \<open>replaceAll\<close> calls replaces every ampersand, \<open><\<close>, \<open>>\<close>,
  double quote and single quote of its argument by the entity of that character and leaves
  every other character as it is; the escaped text contains no \<open><\<close>, \<open>>\<close> or quote at all, so
  nothing of it can open or close a tag or an attribute; and the HTML part of the mail is
  the fixed template around the escaped name, email, subject and message that the handler
  reads from the body, and around nothing else of the request.
\<close>

theorem escapeHtml_rendering: \<open>
  escapeHtml s = concat (map html_entity s)
  \<and> set (escapeHtml s) \<inter> {CHR ''<'', CHR ''>'', CHR 0x22, CHR 0x27} = {}
  \<and> m_html (build_mail cfg b) =
    ''<div style="font-family:system-ui,-apple-system,Segoe UI,Roboto,Arial,sans-serif">\<newline>  <h2>New portfolio contact</h2>\<newline>  <p><strong>Name:</strong> '' @
       escapeHtml (name b) @
       ''</p>\<newline>  <p><strong>Email:</strong> '' @
       escapeHtml (email b) @
       ''</p>\<newline>  <p><strong>Subject:</strong> '' @
       escapeHtml (subject b) @
       ''</p>\<newline>  <p><strong>Message:</strong></p>\<newline>  <pre style="white-space:pre-wrap;font-family:inherit">'' @
       escapeHtml (message b) @
       ''</pre>\<newline></div>''\<close>
proof -
  have "m_html (build_mail cfg b) = render_html b"
    by (simp add: build_mail_def)
  then show ?thesis
    using escapeHtml_concat_map [of s] escapeHtml_no_markup [of s] render_html_eq [of b]
    by simp
qed

theorem escapeHtml_rendering_witness:
  "escapeHtml ''<script>alert(1)</script>'' = ''&lt;script&gt;alert(1)&lt;/script&gt;''"
  using escapeHtml_rendering [of "''<script>alert(1)</script>''"]
  by (simp add: html_entity_def)


section \<open>Field validation\<close>

lemma run_chains_paths: "map path (fst (run_chains L b)) = violated_fields L b"
  by (simp add: run_chains_def name_chain_def email_chain_def subject_chain_def
      message_chain_def violated_fields_def isLength_def Let_def)

lemma violated_fields_distinct: "distinct (violated_fields L b)"
  by (simp add: violated_fields_def)

lemma run_chains_body:
  "snd (run_chains L b) =
     \<lparr> name = js_trim (name b), email = normalizeEmail L (email b),
       subject = js_trim (subject b), message = js_trim (message b) \<rparr>"
  by (simp add: run_chains_def name_chain_def email_chain_def subject_chain_def
      message_chain_def Let_def)

text \<open>
  Claim C1. When at least one field of the body violates its constraint, the route answers
  400 with \<open>{ok: false, errors}\<close>, where \<open>errors\<close> has exactly one entry for each violated
  field (all of them, in the order of the chains, no field twice), and the list of
  \<open>sendMail\<close> calls is what it was: no send is attempted, whatever the transport would do.
\<close>

theorem contact_handler_rejects_invalid:
  assumes "violated_fields L raw \<noteq> []"
  shows "contact_handler cfg L transport raw outbox =
           (\<lparr>status = 400, body = FailErrors (fst (run_chains L raw))\<rparr>, outbox)
         \<and> map path (fst (run_chains L raw)) = violated_fields L raw
         \<and> length (fst (run_chains L raw)) = length (violated_fields L raw)
         \<and> distinct (map path (fst (run_chains L raw)))"
proof -
  have paths: "map path (fst (run_chains L raw)) = violated_fields L raw"
    by (rule run_chains_paths)
  then have len: "length (fst (run_chains L raw)) = length (violated_fields L raw)"
    by (metis length_map)
  from paths assms have "fst (run_chains L raw) \<noteq> []" by auto
  then have "contact_handler cfg L transport raw outbox =
           (\<lparr>status = 400, body = FailErrors (fst (run_chains L raw))\<rparr>, outbox)"
    by (cases "run_chains L raw") (auto simp: contact_handler_def)
  with paths len show ?thesis by (simp add: violated_fields_distinct)
qed

theorem contact_handler_rejects_invalid_witness:
  "violated_fields example_lib
     \<lparr>name = ''A'', email = ''not-an-email'', subject = ''Hi'', message = ''hello!''\<rparr>
     = [''name'', ''email'']
   \<and> contact_handler example_config example_lib (\<lambda>m. True)
       \<lparr>name = ''A'', email = ''not-an-email'', subject = ''Hi'', message = ''hello!''\<rparr> []
     = (\<lparr>status = 400,
         body = FailErrors
           [\<lparr>path = ''name'', msg = ''Name is required'', val = ''A''\<rparr>,
            \<lparr>path = ''email'', msg = ''Valid email is required'',
              val = ''not-an-email''\<rparr>]\<rparr>,
        [])"
proof -
  let ?raw = "\<lparr>name = ''A'', email = ''not-an-email'', subject = ''Hi'', message = ''hello!''\<rparr>"
  have v: "violated_fields example_lib ?raw = [''name'', ''email'']"
    by (simp add: violated_fields_def example_lib_def js_trim_def js_whitespace_def)
  then have ne: "violated_fields example_lib ?raw \<noteq> []" by simp
  have e: "fst (run_chains example_lib ?raw) =
      [\<lparr>path = ''name'', msg = ''Name is required'', val = ''A''\<rparr>,
       \<lparr>path = ''email'', msg = ''Valid email is required'', val = ''not-an-email''\<rparr>]"
    by (simp add: run_chains_def name_chain_def email_chain_def subject_chain_def
        message_chain_def isLength_def Let_def example_lib_def js_trim_def js_whitespace_def)
  from contact_handler_rejects_invalid [OF ne, of example_config "\<lambda>m. True" "[]"] v e
  show ?thesis by simp
qed


section \<open>A valid submission\<close>

text \<open>When \<open>sendMail\<close> throws, the route answers 500 after its one call; it does not call
  again.\<close>

lemma contact_handler_send_fails:
  assumes "violated_fields L raw = []"
    and "\<not> transport (build_mail cfg (snd (run_chains L raw)))"
  shows "contact_handler cfg L transport raw outbox =
           (\<lparr>status = 500, body = FailMessage ''Failed to send email''\<rparr>,
            outbox @ [build_mail cfg (snd (run_chains L raw))])"
proof -
  from assms(1) have "fst (run_chains L raw) = []"
    using run_chains_paths [of L raw] by simp
  with assms(2) show ?thesis
    by (cases "run_chains L raw") (simp add: contact_handler_def)
qed

text \<open>
  Claim C9, amended. When no field violates its constraint and \<open>sendMail\<close> resolves, the
  route answers 200 with \<open>{ok: true, message: "Sent"}\<close> and \<open>sendMail\<close> has been called
  exactly once more, with the configured sender and recipient; the reply-to address is the
  \<open>email\<close> field as the handler reads it from the body, which is the caller's address after
  the chain's \<open>normalizeEmail\<close>.
\<close>

theorem contact_handler_sends_once:
  assumes "violated_fields L raw = []"
    and "transport (build_mail cfg (snd (run_chains L raw)))"
  shows "contact_handler cfg L transport raw outbox =
           (\<lparr>status = 200, body = OkMessage ''Sent''\<rparr>,
            outbox @ [build_mail cfg (snd (run_chains L raw))])
         \<and> m_from (build_mail cfg (snd (run_chains L raw))) = MAIL_FROM cfg
         \<and> m_to (build_mail cfg (snd (run_chains L raw))) = MAIL_TO cfg
         \<and> m_replyTo (build_mail cfg (snd (run_chains L raw))) = normalizeEmail L (email raw)"
proof -
  from assms(1) have "fst (run_chains L raw) = []"
    using run_chains_paths [of L raw] by simp
  with assms(2) have "contact_handler cfg L transport raw outbox =
           (\<lparr>status = 200, body = OkMessage ''Sent''\<rparr>,
            outbox @ [build_mail cfg (snd (run_chains L raw))])"
    by (cases "run_chains L raw") (simp add: contact_handler_def)
  then show ?thesis
    by (simp add: build_mail_def run_chains_body)
qed

theorem contact_handler_sends_once_witness:
  "fst (contact_handler example_config example_lib reliable_transport
      \<lparr>name = ''Al'', email = ''a@b.com'', subject = ''Hi'', message = ''hello!''\<rparr> [])
     = \<lparr>status = 200, body = OkMessage ''Sent''\<rparr>
   \<and> map m_replyTo (snd (contact_handler example_config example_lib reliable_transport
      \<lparr>name = ''Al'', email = ''a@b.com'', subject = ''Hi'', message = ''hello!''\<rparr> []))
     = [''a@b.com'']
   \<and> map m_from (snd (contact_handler example_config example_lib reliable_transport
      \<lparr>name = ''Al'', email = ''a@b.com'', subject = ''Hi'', message = ''hello!''\<rparr> []))
     = [''site@example.com'']
   \<and> map m_to (snd (contact_handler example_config example_lib reliable_transport
      \<lparr>name = ''Al'', email = ''a@b.com'', subject = ''Hi'', message = ''hello!''\<rparr> []))
     = [''owner@example.com'']"
proof -
  let ?raw = "\<lparr>name = ''Al'', email = ''a@b.com'', subject = ''Hi'', message = ''hello!''\<rparr>"
  have v: "violated_fields example_lib ?raw = []"
    by (simp add: violated_fields_def example_lib_def js_trim_def js_whitespace_def)
  have t: "reliable_transport (build_mail example_config (snd (run_chains example_lib ?raw)))"
    by (simp add: reliable_transport_def)
  have n: "normalizeEmail example_lib ''a@b.com'' = ''a@b.com''"
    by (simp add: example_lib_def toLowerCase_def toLowerCase_char_def)
  from contact_handler_sends_once [where L = example_lib and raw = ?raw
      and transport = reliable_transport and cfg = example_config and outbox = "[]", OF v t] n
  show ?thesis by (simp add: example_config_def)
qed

text \<open>The reply-to address is not always the address the caller sent: an address in capitals
  passes the validation and is lower-cased by the sanitizer before the handler reads it.\<close>

theorem reply_to_counterexample:
  "fst (contact_handler example_config example_lib reliable_transport
      \<lparr>name = ''Al'', email = ''A@B.COM'', subject = ''Hi'', message = ''hello!''\<rparr> [])
     = \<lparr>status = 200, body = OkMessage ''Sent''\<rparr>
   \<and> map m_replyTo (snd (contact_handler example_config example_lib reliable_transport
      \<lparr>name = ''Al'', email = ''A@B.COM'', subject = ''Hi'', message = ''hello!''\<rparr> []))
     = [''a@b.com'']
   \<and> ''a@b.com'' \<noteq> email \<lparr>name = ''Al'', email = ''A@B.COM'', subject = ''Hi'', message = ''hello!''\<rparr>"
  by (simp add: contact_handler_def run_chains_def name_chain_def email_chain_def subject_chain_def
        message_chain_def isLength_def Let_def example_lib_def js_trim_def js_whitespace_def
        reliable_transport_def build_mail_def toLowerCase_def toLowerCase_char_def)


section \<open>Start-up configuration\<close>

text \<open>The secure flag is not among the variables the check reads: with the six others set
  and \<open>SMTP_SECURE\<close> absent the process listens.\<close>

theorem secure_flag_counterexample:
  "example_env ''SMTP_SECURE'' = None \<and> accepts_requests (startup example_env)"
  by (simp add: example_env_def startup_def js_not_def)

text \<open>
  Claim C5, amended. If the host, the port, the user, the password, the recipient or the
  sender is absent or empty, the process exits with code 1 and accepts no request. If all
  six are set, the process listens, also without \<open>SMTP_SECURE\<close>, which is then read as
  false.
\<close>

theorem startup_required:
  "(js_not (e ''SMTP_HOST'') \<or> js_not (e ''SMTP_PORT'') \<or> js_not (e ''SMTP_USER'') \<or>
    js_not (e ''SMTP_PASS'') \<or> js_not (e ''MAIL_TO'') \<or> js_not (e ''MAIL_FROM'')
    \<longrightarrow> startup e = Exited 1 \<and> \<not> accepts_requests (startup e))
   \<and> (\<not> (js_not (e ''SMTP_HOST'') \<or> js_not (e ''SMTP_PORT'') \<or> js_not (e ''SMTP_USER'') \<or>
    js_not (e ''SMTP_PASS'') \<or> js_not (e ''MAIL_TO'') \<or> js_not (e ''MAIL_FROM''))
    \<longrightarrow> accepts_requests (startup e)
        \<and> accepts_requests (startup (e(''SMTP_SECURE'' := None)))
        \<and> (\<forall>c. startup (e(''SMTP_SECURE'' := None)) = Listening c \<longrightarrow> \<not> SMTP_SECURE c))"
  by (simp add: startup_def secure_flag_def toLowerCase_def toLowerCase_char_def)


theorem startup_required_witness:
  "js_not ((example_env(''MAIL_TO'' := None)) ''MAIL_TO'')
   \<and> startup (example_env(''MAIL_TO'' := None)) = Exited 1
   \<and> \<not> accepts_requests (startup (example_env(''MAIL_TO'' := None)))
   \<and> \<not> js_not (example_env ''SMTP_HOST'')
   \<and> accepts_requests (startup example_env)"
  using startup_required [of "example_env(''MAIL_TO'' := None)"] startup_required [of example_env]
  by (simp add: js_not_def example_env_def)


section \<open>Image normalization\<close>

lemma Math_round_div_nearest:
  assumes "0 < b"
  shows "2 * b * Math_round_div a b \<le> 2 * a + b \<and> 2 * a + b < 2 * b * Math_round_div a b + 2 * b"
proof -
  have "0 < 2 * b" using assms by simp
  then have "(2 * a + b) mod (2 * b) < 2 * b" by (rule mod_less_divisor)
  moreover have "2 * b * ((2 * a + b) div (2 * b)) + (2 * a + b) mod (2 * b) = 2 * a + b"
    by (rule mult_div_mod_eq)
  ultimately show ?thesis unfolding Math_round_div_def by linarith
qed

lemma Math_round_div_le:
  assumes "0 < b" "a \<le> b * m"
  shows "Math_round_div a b \<le> m"
proof -
  have "2 * a + b < 2 * b * (m + 1)" using assms by (simp add: algebra_simps)
  then have "(2 * a + b) div (2 * b) < m + 1"
    using assms(1) by (simp add: div_less_iff_less_mult mult.commute)
  then show ?thesis by (simp add: Math_round_div_def)
qed

lemma drawToCanvas_cases:
  "drawToCanvas img m =
     (if height img < width img \<and> m < width img
      then \<lparr>width = m, height = Math_round_div (height img * m) (width img), picture = picture img\<rparr>
      else if width img \<le> height img \<and> m < height img
      then \<lparr>width = Math_round_div (width img * m) (height img), height = m, picture = picture img\<rparr>
      else img)"
  by (simp add: drawToCanvas_def)

text \<open>
  Claim C4. For an image of positive width and height, the canvas made by the normalization
  has no edge longer than 768; an image with both edges within 768 keeps its dimensions;
  otherwise the longer edge becomes 768 and the shorter one becomes \<open>Math.round(shorter *
  768 / longer)\<close>, which is the integer nearest to \<open>shorter * 768 / longer\<close> (a half is
  rounded up), so that the ratio of the edges is that of the input up to this rounding.
\<close>

theorem drawToCanvas_bounded:
  assumes "0 < width img" and "0 < height img"
  shows "max (width (drawToCanvas img 768)) (height (drawToCanvas img 768)) \<le> 768
    \<and> (width img \<le> 768 \<and> height img \<le> 768 \<longrightarrow> drawToCanvas img 768 = img)
    \<and> (768 < max (width img) (height img) \<longrightarrow>
         max (width (drawToCanvas img 768)) (height (drawToCanvas img 768)) = 768
         \<and> min (width (drawToCanvas img 768)) (height (drawToCanvas img 768))
             = Math_round_div (min (width img) (height img) * 768) (max (width img) (height img))
         \<and> (height img < width img \<longrightarrow>
               height (drawToCanvas img 768) = Math_round_div (height img * 768) (width img))
         \<and> (width img \<le> height img \<longrightarrow>
               width (drawToCanvas img 768) = Math_round_div (width img * 768) (height img)))
    \<and> 2 * max (width img) (height img) * Math_round_div (min (width img) (height img) * 768) (max (width img) (height img))
          \<le> 2 * (min (width img) (height img) * 768) + max (width img) (height img)
    \<and> 2 * (min (width img) (height img) * 768) + max (width img) (height img)
          < 2 * max (width img) (height img) * Math_round_div (min (width img) (height img) * 768) (max (width img) (height img)) + 2 * max (width img) (height img)"
proof -
  have r1: "Math_round_div (height img * 768) (width img) \<le> 768" if "height img < width img"
    using that assms by (intro Math_round_div_le) (simp_all add: mult.commute)
  have r2: "Math_round_div (width img * 768) (height img) \<le> 768" if "width img \<le> height img"
    using that assms by (intro Math_round_div_le) (simp_all add: mult.commute)
  have m: "0 < max (width img) (height img)" using assms by simp
  show ?thesis
    using r1 r2 Math_round_div_nearest [OF m, of "min (width img) (height img) * 768"]
    by (auto simp: drawToCanvas_cases max_def min_def)
qed


theorem drawToCanvas_bounded_witness:
  "0 < width \<lparr>width = 4000, height = 3000, picture = 7\<rparr>
   \<and> 0 < height \<lparr>width = 4000, height = 3000, picture = 7\<rparr>
   \<and> drawToCanvas \<lparr>width = 4000, height = 3000, picture = 7\<rparr> 768
       = \<lparr>width = 768, height = 576, picture = 7\<rparr>
   \<and> drawToCanvas \<lparr>width = 640, height = 480, picture = 7\<rparr> 768
       = \<lparr>width = 640, height = 480, picture = 7\<rparr>"
  using drawToCanvas_bounded [of "\<lparr>width = 4000, height = 3000, picture = 7\<rparr>"]
    drawToCanvas_bounded [of "\<lparr>width = 640, height = 480, picture = 7\<rparr>"]
  by (simp add: drawToCanvas_def Math_round_div_def)


section \<open>The rate limiter\<close>

lemma counted_Nil: "counted cfg i [] = []"
  by (simp add: counted_def)

lemma counted_Cons:
  "counted cfg i (rq # rqs) =
     (if ident rq = i \<and> reaches_limiter cfg rq then rq # counted cfg i rqs
      else counted cfg i rqs)"
  by (simp add: counted_def)

lemma api_contact_windows:
  "windows (snd (api_contact cfg L transport rq s)) =
     (if reaches_limiter cfg rq
      then snd (rateLimit (60 * 1000) 10 (windows s) (ident rq) (arrival rq))
      else windows s)"
  by (simp add: api_contact_def reaches_limiter_def split: prod.splits parsed_body.splits)

lemma api_contact_stopped:
  "\<not> reaches_limiter cfg rq \<Longrightarrow> snd (api_contact cfg L transport rq s) = s"
  by (simp add: api_contact_def reaches_limiter_def split: parsed_body.splits)

lemma rateLimit_other:
  "j \<noteq> i \<Longrightarrow> snd (rateLimit wms lim st j now) i = st i"
  by (simp add: rateLimit_def Let_def)

lemma rateLimit_closed:
  "window_closed st i now \<Longrightarrow>
     snd (rateLimit 60000 lim st i now) i = Some \<lparr>hits = 1, window_start = now\<rparr>"
  by (simp add: rateLimit_def current_window_def window_closed_def Let_def split: option.splits)

lemma rateLimit_open:
  "st i = Some w \<Longrightarrow> now < window_start w + wms \<Longrightarrow>
     rateLimit wms lim st i now = (hits w + 1 \<le> lim, st(i := Some (w\<lparr>hits := hits w + 1\<rparr>)))"
  by (simp add: rateLimit_def current_window_def Let_def)

lemma api_contact_frame:
  "\<not> (ident rq = i \<and> reaches_limiter cfg rq) \<Longrightarrow>
     windows (snd (api_contact cfg L transport rq s)) i = windows s i"
  by (auto simp: api_contact_windows rateLimit_other)

lemma serve_step:
  "snd (serve cfg L transport (rq # rqs) s) =
     snd (serve cfg L transport rqs (snd (api_contact cfg L transport rq s)))"
  by (simp split: prod.splits)

lemma serve_window:
  "windows s i = Some w \<Longrightarrow>
   \<forall>r\<in>set (counted cfg i rqs). arrival r < window_start w + 60 * 1000 \<Longrightarrow>
   windows (snd (serve cfg L transport rqs s)) i =
     Some (w\<lparr>hits := hits w + length (counted cfg i rqs)\<rparr>)"
proof (induction rqs arbitrary: s w)
  case Nil
  then show ?case by (simp add: counted_Nil)
next
  case (Cons rq rqs)
  let ?s1 = "snd (api_contact cfg L transport rq s)"
  show ?case
  proof (cases "ident rq = i \<and> reaches_limiter cfg rq")
    case True
    then have c: "counted cfg i (rq # rqs) = rq # counted cfg i rqs"
      by (simp add: counted_Cons)
    with Cons.prems have "arrival rq < window_start w + 60 * 1000" by simp
    with True Cons.prems(1) have "windows ?s1 i = Some (w\<lparr>hits := hits w + 1\<rparr>)"
      by (simp add: api_contact_windows rateLimit_open)
    moreover have "\<forall>r\<in>set (counted cfg i rqs).
        arrival r < window_start (w\<lparr>hits := hits w + 1\<rparr>) + 60 * 1000"
      using Cons.prems(2) c by simp
    ultimately have "windows (snd (serve cfg L transport rqs ?s1)) i =
        Some ((w\<lparr>hits := hits w + 1\<rparr>)\<lparr>hits := hits (w\<lparr>hits := hits w + 1\<rparr>)
           + length (counted cfg i rqs)\<rparr>)"
      by (rule Cons.IH)
    with c show ?thesis by (simp add: serve_step del: serve.simps)
  next
    case False
    then have c: "counted cfg i (rq # rqs) = counted cfg i rqs"
      by (simp add: counted_Cons)
    from False have "windows ?s1 i = windows s i"
      by (rule api_contact_frame)
    with Cons.prems(1) have "windows ?s1 i = Some w" by simp
    moreover have "\<forall>r\<in>set (counted cfg i rqs). arrival r < window_start w + 60 * 1000"
      using Cons.prems(2) c by simp
    ultimately have "windows (snd (serve cfg L transport rqs ?s1)) i =
        Some (w\<lparr>hits := hits w + length (counted cfg i rqs)\<rparr>)"
      by (rule Cons.IH)
    with c show ?thesis by (simp add: serve_step del: serve.simps)
  qed
qed

text \<open>A caller whose window is closed when its first counted request of a run arrives, and
  whose counted requests all arrive less than 60 seconds after that one, has after the run
  a window that began with that request and holds the number of its counted requests. The
  caller may have had windows before.\<close>

lemma serve_opened:
  "window_closed (windows s) i (arrival (hd (counted cfg i rqs))) \<Longrightarrow>
   counted cfg i rqs \<noteq> [] \<Longrightarrow>
   \<forall>r\<in>set (counted cfg i rqs). arrival r < arrival (hd (counted cfg i rqs)) + 60 * 1000 \<Longrightarrow>
   windows (snd (serve cfg L transport rqs s)) i =
     Some \<lparr>hits = length (counted cfg i rqs),
           window_start = arrival (hd (counted cfg i rqs))\<rparr>"
proof (induction rqs arbitrary: s)
  case Nil
  then show ?case by (simp add: counted_Nil)
next
  case (Cons rq rqs)
  let ?s1 = "snd (api_contact cfg L transport rq s)"
  show ?case
  proof (cases "ident rq = i \<and> reaches_limiter cfg rq")
    case True
    then have c: "counted cfg i (rq # rqs) = rq # counted cfg i rqs"
      by (simp add: counted_Cons)
    with Cons.prems(1) have "window_closed (windows s) i (arrival rq)" by simp
    with True have w: "windows ?s1 i = Some \<lparr>hits = 1, window_start = arrival rq\<rparr>"
      by (simp add: api_contact_windows rateLimit_closed)
    have "\<forall>r\<in>set (counted cfg i rqs).
        arrival r < window_start \<lparr>hits = 1, window_start = arrival rq\<rparr> + 60 * 1000"
      using Cons.prems(3) c by simp
    with w have "windows (snd (serve cfg L transport rqs ?s1)) i =
        Some (\<lparr>hits = 1, window_start = arrival rq\<rparr>
          \<lparr>hits := hits \<lparr>hits = 1, window_start = arrival rq\<rparr>
             + length (counted cfg i rqs)\<rparr>)"
      by (rule serve_window)
    with c show ?thesis by (simp add: serve_step del: serve.simps)
  next
    case False
    then have c: "counted cfg i (rq # rqs) = counted cfg i rqs"
      by (simp add: counted_Cons)
    from False have "windows ?s1 i = windows s i"
      by (rule api_contact_frame)
    with Cons.prems(1) c
    have "window_closed (windows ?s1) i (arrival (hd (counted cfg i rqs)))"
      by (simp add: window_closed_def)
    moreover have "counted cfg i rqs \<noteq> []"
      using Cons.prems(2) c by simp
    moreover have "\<forall>r\<in>set (counted cfg i rqs).
        arrival r < arrival (hd (counted cfg i rqs)) + 60 * 1000"
      using Cons.prems(3) c by simp
    ultimately have "windows (snd (serve cfg L transport rqs ?s1)) i =
     Some \<lparr>hits = length (counted cfg i rqs),
           window_start = arrival (hd (counted cfg i rqs))\<rparr>"
      by (rule Cons.IH)
    with c show ?thesis by (simp add: serve_step del: serve.simps)
  qed
qed

lemma serve_stopped:
  "\<forall>r\<in>set rqs. \<not> reaches_limiter cfg r \<Longrightarrow> snd (serve cfg L transport rqs s) = s"
proof (induction rqs arbitrary: s)
  case Nil
  show ?case by simp
next
  case (Cons rq rqs)
  then show ?case by (simp add: serve_step api_contact_stopped del: serve.simps)
qed

lemma api_contact_rejects:
  assumes "windows S (ident rq) = Some w" and "10 \<le> hits w"
    and "arrival rq < window_start w + 60 * 1000"
    and "cors_allows cfg (origin rq)" and "payload rq = Parsed b"
  shows "api_contact cfg L transport rq S =
     (\<lparr>status = 429, body = TooManyRequests\<rparr>,
      S\<lparr>windows := (windows S)(ident rq := Some (w\<lparr>hits := hits w + 1\<rparr>))\<rparr>)"
  using assms by (simp add: api_contact_def rateLimit_open)

text \<open>A request within the limit is handed to the route.\<close>

lemma api_contact_within_limit:
  assumes "windows S (ident rq) = Some w" and "hits w < 10"
    and "arrival rq < window_start w + 60 * 1000"
    and "cors_allows cfg (origin rq)" and "payload rq = Parsed b"
  shows "fst (api_contact cfg L transport rq S)
           = fst (contact_handler cfg L transport b (sent_mail S))
    \<and> sent_mail (snd (api_contact cfg L transport rq S))
           = snd (contact_handler cfg L transport b (sent_mail S))"
  using assms by (simp add: api_contact_def rateLimit_open split: prod.splits)

text \<open>
  The limiter does not count every request that arrives: eleven requests of one caller that
  carry the \<open>Origin\<close> of a site not on the list are each answered 500 by the CORS check
  without reaching the limiter, and the caller's twelfth request in the same minute, sent
  without an \<open>Origin\<close>, is handled and its mail is sent.
\<close>

theorem cross_origin_counterexample:
  "set (map ident eleven_cross_origin) = {''203.0.113.7''}
   \<and> length eleven_cross_origin = 11
   \<and> map arrival eleven_cross_origin
      = [0, 1000, 2000, 3000, 4000, 5000, 6000, 7000, 8000, 9000, 10000]
   \<and> map status
        (fst (serve example_config example_lib reliable_transport eleven_cross_origin
           fresh_server))
      = [500, 500, 500, 500, 500, 500, 500, 500, 500, 500, 500]
   \<and> ident (example_request 59999) = ''203.0.113.7''
   \<and> arrival (example_request 59999) = 59999
   \<and> fst (api_contact example_config example_lib reliable_transport (example_request 59999)
        (snd (serve example_config example_lib reliable_transport eleven_cross_origin
           fresh_server)))
      = \<lparr>status = 200, body = OkMessage ''Sent''\<rparr>"
proof -
  have blocked: "\<not> cors_allows example_config (Some ''http://other.example'')"
    by (simp add: cors_allows_def allowed_def example_config_def js_trim_def js_whitespace_def)
  then have stopped: "\<forall>r\<in>set eleven_cross_origin. \<not> reaches_limiter example_config r"
    by (simp add: eleven_cross_origin_def ten_requests_def cross_origin_def reaches_limiter_def)
  then have s: "snd (serve example_config example_lib reliable_transport eleven_cross_origin
      fresh_server) = fresh_server"
    by (rule serve_stopped)
  have st: "map status
        (fst (serve example_config example_lib reliable_transport eleven_cross_origin
           fresh_server))
      = [500, 500, 500, 500, 500, 500, 500, 500, 500, 500, 500]"
    using blocked
    by (simp add: eleven_cross_origin_def ten_requests_def cross_origin_def api_contact_def
        split: prod.splits)
  have last: "fst (api_contact example_config example_lib reliable_transport
      (example_request 59999) fresh_server) = \<lparr>status = 200, body = OkMessage ''Sent''\<rparr>"
    by (simp add: api_contact_def example_request_def cors_allows_def fresh_server_def
        rateLimit_def current_window_def contact_handler_def run_chains_def name_chain_def
        email_chain_def subject_chain_def message_chain_def isLength_def Let_def
        example_lib_def js_trim_def js_whitespace_def reliable_transport_def)
  show ?thesis
    using s st last
    by (simp add: eleven_cross_origin_def ten_requests_def cross_origin_def example_request_def)
qed

text \<open>
  Claim C2, amended. Take a caller and any run of requests. Let the requests that count be
  the caller's requests that reach the limiter (those the CORS check and the body parser
  let pass). Suppose the first of them opens a window (when it arrives the caller has no
  window, or its last one began 60 seconds or more before), at least ten count, and all of
  them arrive less than 60 seconds after the first. Then a further request of this caller
  that reaches the limiter within these 60 seconds is answered 429; the list
  of \<open>sendMail\<close> calls stays as it was; and the answer and the state are the same for every
  body, validator library and transport, so neither the validation chains nor the handler
  have run.
\<close>

theorem eleventh_request_rejected:
  assumes closed: "window_closed (windows s) i (arrival (hd (counted cfg i rqs)))"
    and ten: "10 \<le> length (counted cfg i rqs)"
    and win: "\<forall>r\<in>set (counted cfg i rqs).
        arrival r < arrival (hd (counted cfg i rqs)) + 60 * 1000"
    and rq: "ident rq = i" "reaches_limiter cfg rq"
      "arrival rq < arrival (hd (counted cfg i rqs)) + 60 * 1000"
  shows "fst (api_contact cfg L transport rq (snd (serve cfg L transport rqs s)))
           = \<lparr>status = 429, body = TooManyRequests\<rparr>
    \<and> sent_mail (snd (api_contact cfg L transport rq (snd (serve cfg L transport rqs s))))
           = sent_mail (snd (serve cfg L transport rqs s))
    \<and> api_contact cfg L transport (rq\<lparr>payload := Parsed p\<rparr>)
          (snd (serve cfg L transport rqs s))
           = api_contact cfg L transport rq (snd (serve cfg L transport rqs s))
    \<and> api_contact cfg L' transport' rq (snd (serve cfg L transport rqs s))
           = api_contact cfg L transport rq (snd (serve cfg L transport rqs s))"
proof -
  let ?S = "snd (serve cfg L transport rqs s)"
  let ?w = "\<lparr>hits = length (counted cfg i rqs),
           window_start = arrival (hd (counted cfg i rqs))\<rparr>"
  from ten have ne: "counted cfg i rqs \<noteq> []" by auto
  have w: "windows ?S i = Some ?w"
    using closed ne win by (rule serve_opened)
  from rq(2) obtain b where b: "payload rq = Parsed b" and c: "cors_allows cfg (origin rq)"
    by (cases "payload rq") (simp_all add: reaches_limiter_def)
  have a: "api_contact cfg l t (rq\<lparr>payload := Parsed q\<rparr>) ?S =
     (\<lparr>status = 429, body = TooManyRequests\<rparr>,
      ?S\<lparr>windows := (windows ?S)(i := Some (?w\<lparr>hits := hits ?w + 1\<rparr>))\<rparr>)" for l t q
    using api_contact_rejects [of ?S "rq\<lparr>payload := Parsed q\<rparr>" ?w cfg q l t] w ten rq c
    by simp
  from b have r: "rq\<lparr>payload := Parsed b\<rparr> = rq" by simp
  from a [of L transport b] a [of L transport p] a [of L' transport' b] r
  show ?thesis by simp
qed

theorem eleventh_request_rejected_witness:
  "windows (snd (serve example_config example_lib reliable_transport ten_requests fresh_server))
      ''203.0.113.7'' = Some \<lparr>hits = 10, window_start = 0\<rparr>
   \<and> window_closed
        (windows (snd (serve example_config example_lib reliable_transport ten_requests
           fresh_server))) ''203.0.113.7'' 60000
   \<and> counted example_config ''203.0.113.7'' ten_later = ten_later
   \<and> length ten_later = 10
   \<and> reaches_limiter example_config (example_request 119999)
   \<and> fst (api_contact example_config example_lib reliable_transport (example_request 119999)
        (snd (serve example_config example_lib reliable_transport ten_later
          (snd (serve example_config example_lib reliable_transport ten_requests
             fresh_server)))))
      = \<lparr>status = 429, body = TooManyRequests\<rparr>
   \<and> fst (api_contact example_config example_lib reliable_transport (example_request 59999)
        (snd (serve example_config example_lib reliable_transport ten_requests fresh_server)))
      = \<lparr>status = 429, body = TooManyRequests\<rparr>"
proof -
  let ?i = "''203.0.113.7''"
  let ?s1 = "snd (serve example_config example_lib reliable_transport ten_requests fresh_server)"
  have reach: "reaches_limiter example_config (example_request t)" for t
    by (simp add: reaches_limiter_def example_request_def cors_allows_def)
  have id: "ident (example_request t) = ?i" for t
    by (simp add: example_request_def)
  have c1: "counted example_config ?i ten_requests = ten_requests"
    by (simp add: counted_def ten_requests_def reach id)
  have c2: "counted example_config ?i ten_later = ten_later"
    by (simp add: counted_def ten_later_def reach id)
  have closed1: "window_closed (windows fresh_server) ?i
      (arrival (hd (counted example_config ?i ten_requests)))"
    by (simp add: window_closed_def fresh_server_def)
  have ten1: "10 \<le> length (counted example_config ?i ten_requests)"
    by (simp add: c1) (simp add: ten_requests_def)
  have win1: "\<forall>r\<in>set (counted example_config ?i ten_requests).
      arrival r < arrival (hd (counted example_config ?i ten_requests)) + 60 * 1000"
    by (simp add: c1) (simp add: ten_requests_def example_request_def)
  have ne1: "counted example_config ?i ten_requests \<noteq> []"
    using ten1 by auto
  have w1: "windows ?s1 ?i = Some \<lparr>hits = 10, window_start = 0\<rparr>"
    using serve_opened [OF closed1 ne1 win1, of example_lib reliable_transport]
    by (simp add: c1) (simp add: ten_requests_def example_request_def)
  have rq1: "arrival (example_request 59999)
      < arrival (hd (counted example_config ?i ten_requests)) + 60 * 1000"
    by (simp add: c1) (simp add: ten_requests_def example_request_def)
  have closed2: "window_closed (windows ?s1) ?i
      (arrival (hd (counted example_config ?i ten_later)))"
    by (simp add: c2 w1 window_closed_def) (simp add: ten_later_def example_request_def)
  have ten2: "10 \<le> length (counted example_config ?i ten_later)"
    by (simp add: c2) (simp add: ten_later_def)
  have win2: "\<forall>r\<in>set (counted example_config ?i ten_later).
      arrival r < arrival (hd (counted example_config ?i ten_later)) + 60 * 1000"
    by (simp add: c2) (simp add: ten_later_def example_request_def)
  have rq2: "arrival (example_request 119999)
      < arrival (hd (counted example_config ?i ten_later)) + 60 * 1000"
    by (simp add: c2) (simp add: ten_later_def example_request_def)
  have closed2': "window_closed (windows ?s1) ?i 60000"
    by (simp add: w1 window_closed_def)
  have len: "length ten_later = 10" by (simp add: ten_later_def)
  from eleventh_request_rejected [OF closed1 ten1 win1 id reach rq1,
      of example_lib reliable_transport]
    eleventh_request_rejected [OF closed2 ten2 win2 id reach rq2,
      of example_lib reliable_transport]
    w1 closed2' c2 len reach
  show ?thesis by simp
qed


section \<open>Object URLs of the photo pipeline\<close>

lemma trackedI:
  assumes "\<And>u b. objectUrls pg u = Some b \<Longrightarrow> lastObjectUrlRef pg = Some u"
    and "\<And>u. lastObjectUrlRef pg = Some u \<Longrightarrow> objectUrls pg u \<noteq> None"
    and "\<And>u. lastObjectUrlRef pg = Some u \<Longrightarrow> u < nextUrl pg"
    and "profilePicUrl pg = shown_for (lastObjectUrlRef pg)"
  shows "tracked pg"
  unfolding tracked_def using assms by blast

lemma tracked_only: "tracked pg \<Longrightarrow> objectUrls pg u = Some b \<Longrightarrow> lastObjectUrlRef pg = Some u"
  unfolding tracked_def by blast

lemma tracked_resolves: "tracked pg \<Longrightarrow> lastObjectUrlRef pg = Some u \<Longrightarrow> objectUrls pg u \<noteq> None"
  unfolding tracked_def by blast

lemma tracked_minted: "tracked pg \<Longrightarrow> lastObjectUrlRef pg = Some u \<Longrightarrow> u < nextUrl pg"
  unfolding tracked_def by blast

lemma tracked_shown: "tracked pg \<Longrightarrow> profilePicUrl pg = shown_for (lastObjectUrlRef pg)"
  unfolding tracked_def by blast

lemma tracked_live: "tracked pg \<Longrightarrow> live_urls pg = set_option (lastObjectUrlRef pg)"
proof (cases "lastObjectUrlRef pg")
  case None
  assume "tracked pg"
  with None have "\<forall>u. objectUrls pg u = None"
    unfolding tracked_def by (metis option.distinct(1) option.exhaust)
  with None show ?thesis by (simp add: live_urls_def)
next
  case (Some u0)
  assume t: "tracked pg"
  have "objectUrls pg u \<noteq> None \<longleftrightarrow> u = u0" for u
    using t Some unfolding tracked_def by (metis option.inject option.exhaust)
  with Some show ?thesis by (simp add: live_urls_def del: not_None_eq)
qed

lemma tracked_initial: "tracked (initial_page st n)"
  by (simp add: tracked_def initial_page_def live_urls_def)

lemma tracked_photoError [simp]: "tracked (pg\<lparr>photoError := e\<rparr>) = tracked pg"
  by (simp add: tracked_def live_urls_def)

lemma tracked_photos [simp]: "tracked (pg\<lparr>photos := e\<rparr>) = tracked pg"
  by (simp add: tracked_def live_urls_def)


lemma createObjectURL_Inr:
  "createObjectURL v pg = Inr (url, pg1) \<Longrightarrow>
     url = nextUrl pg \<and>
     (\<exists>b. v = Blob b \<and>
          pg1 = pg\<lparr>objectUrls := (objectUrls pg)(nextUrl pg := Some b),
                   nextUrl := Suc (nextUrl pg)\<rparr>)"
  by (cases v) (auto simp: createObjectURL_def)

lemma tracked_show_url:
  assumes t: "tracked pg" and c: "createObjectURL v pg = Inr (url, pg1)"
  shows "tracked (show_url url pg1)"
proof -
  from c obtain b where url: "url = nextUrl pg"
    and pg1: "pg1 = pg\<lparr>objectUrls := (objectUrls pg)(nextUrl pg := Some b),
                     nextUrl := Suc (nextUrl pg)\<rparr>"
    using createObjectURL_Inr by blast
  show ?thesis
  proof (cases "lastObjectUrlRef pg")
    case None
    with t have "objectUrls pg u = None" for u
      unfolding tracked_def by (metis option.distinct(1) option.exhaust)
    with None show ?thesis
      by (simp add: tracked_def show_url_def url pg1)
  next
    case (Some u0)
    with t have lt: "u0 < nextUrl pg" by (simp add: tracked_def)
    have "objectUrls pg u = None" if "u \<noteq> u0" for u
      using t Some that unfolding tracked_def by (metis option.inject option.exhaust)
    with Some lt show ?thesis
      by (simp add: tracked_def show_url_def revokeObjectURL_def url pg1)
  qed
qed


lemma tracked_mount_load:
  assumes "tracked pg" shows "tracked (mount_load io pg)"
proof (cases "idbGet io ''profilePic'' (photos pg)")
  case (Inl f)
  with assms show ?thesis by (simp add: mount_load_def load_failed_def)
next
  case (Inr v)
  show ?thesis
  proof (cases "truthy v")
    case False
    with Inr assms show ?thesis by (simp add: mount_load_def)
  next
    case True
    show ?thesis
    proof (cases "createObjectURL v pg")
      case (Inl e)
      with Inr True assms show ?thesis by (simp add: mount_load_def load_failed_def)
    next
      case c: (Inr p)
      obtain url pg1 where p: "p = (url, pg1)" by (cases p)
      with c assms have "tracked (show_url url pg1)" using tracked_show_url by blast
      with Inr True c p show ?thesis by (simp add: mount_load_def)
    qed
  qed
qed

lemma fileToImage_page:
  "snd (fileToImage br file pg) =
     pg\<lparr>objectUrls := (objectUrls pg)(nextUrl pg := None), nextUrl := Suc (nextUrl pg)\<rparr>"
  by (simp add: fileToImage_def createObjectURL_def revokeObjectURL_def split: option.splits)

lemma tracked_fresh_url:
  assumes t: "tracked pg"
  shows "tracked (pg\<lparr>objectUrls := (objectUrls pg)(nextUrl pg := None),
                     nextUrl := Suc (nextUrl pg)\<rparr>)"
proof (rule trackedI)
  fix u b
  assume "objectUrls (pg\<lparr>objectUrls := (objectUrls pg)(nextUrl pg := None),
                     nextUrl := Suc (nextUrl pg)\<rparr>) u = Some b"
  then have "objectUrls pg u = Some b" by (simp split: if_splits)
  with t have "lastObjectUrlRef pg = Some u" by (rule tracked_only)
  then show "lastObjectUrlRef (pg\<lparr>objectUrls := (objectUrls pg)(nextUrl pg := None),
                     nextUrl := Suc (nextUrl pg)\<rparr>) = Some u" by simp
next
  fix u
  assume "lastObjectUrlRef (pg\<lparr>objectUrls := (objectUrls pg)(nextUrl pg := None),
                     nextUrl := Suc (nextUrl pg)\<rparr>) = Some u"
  then have l: "lastObjectUrlRef pg = Some u" by simp
  with t have "objectUrls pg u \<noteq> None" and lt: "u < nextUrl pg"
    by (rule tracked_resolves, rule tracked_minted)
  then show "objectUrls (pg\<lparr>objectUrls := (objectUrls pg)(nextUrl pg := None),
                     nextUrl := Suc (nextUrl pg)\<rparr>) u \<noteq> None"
    by (simp del: not_None_eq)
  from lt show "u < nextUrl (pg\<lparr>objectUrls := (objectUrls pg)(nextUrl pg := None),
                     nextUrl := Suc (nextUrl pg)\<rparr>)" by simp
next
  from t show "profilePicUrl (pg\<lparr>objectUrls := (objectUrls pg)(nextUrl pg := None),
                     nextUrl := Suc (nextUrl pg)\<rparr>)
      = shown_for (lastObjectUrlRef (pg\<lparr>objectUrls := (objectUrls pg)(nextUrl pg := None),
                     nextUrl := Suc (nextUrl pg)\<rparr>))"
    by (simp add: tracked_shown)
qed

lemma compressFileToBlob_page:
  "snd (compressFileToBlob br file pg) = snd (fileToImage br file pg)"
  by (simp add: compressFileToBlob_def split: prod.splits sum.splits)

lemma tracked_compressFileToBlob:
  "tracked pg \<Longrightarrow> tracked (snd (compressFileToBlob br file pg))"
  by (simp only: compressFileToBlob_page fileToImage_page tracked_fresh_url)


lemma tracked_none: "tracked pg \<Longrightarrow> lastObjectUrlRef pg = None \<Longrightarrow> objectUrls pg u = None"
  using tracked_only [of pg u] by (cases "objectUrls pg u") simp_all

lemma tracked_other:
  "tracked pg \<Longrightarrow> lastObjectUrlRef pg = Some u0 \<Longrightarrow> u \<noteq> u0 \<Longrightarrow> objectUrls pg u = None"
  using tracked_only [of pg u] by (cases "objectUrls pg u") simp_all

lemma tracked_handlePhotoPick:
  assumes "tracked pg" shows "tracked (handlePhotoPick br io file pg)"
proof -
  obtain r pg1 where c: "compressFileToBlob br file (pg\<lparr>photoError := []\<rparr>) = (r, pg1)"
    by (cases "compressFileToBlob br file (pg\<lparr>photoError := []\<rparr>)")
  from assms have "tracked (pg\<lparr>photoError := []\<rparr>)" by simp
  then have "tracked (snd (compressFileToBlob br file (pg\<lparr>photoError := []\<rparr>)))"
    by (rule tracked_compressFileToBlob)
  with c have t1: "tracked pg1" by simp
  show ?thesis
  proof (cases r)
    case (Inl e)
    with c t1 show ?thesis by (simp add: handlePhotoPick_def save_failed_def)
  next
    case (Inr v)
    show ?thesis
    proof (cases io)
      case (Some f)
      with c Inr t1 show ?thesis by (simp add: handlePhotoPick_def save_failed_def idbSet_def)
    next
      case None
      let ?pg = "pg1\<lparr>photos := (photos pg1)(''profilePic'' := Some v)\<rparr>"
      have t2: "tracked ?pg" using t1 by simp
      show ?thesis
      proof (cases "createObjectURL v ?pg")
        case (Inl e)
        with c Inr None t2 show ?thesis
          by (simp add: handlePhotoPick_def save_failed_def idbSet_def)
      next
        case u: (Inr p)
        obtain url pg2 where p: "p = (url, pg2)" by (cases p)
        with u t2 have "tracked (show_url url pg2)" using tracked_show_url by blast
        with c Inr None u p show ?thesis
          by (simp add: handlePhotoPick_def idbSet_def)
      qed
    qed
  qed
qed

lemma tracked_removePhoto:
  assumes t: "tracked pg" shows "tracked (removePhoto io pg)"
proof (cases "lastObjectUrlRef pg")
  case None
  have "removePhoto io pg =
      pg\<lparr>photos := snd (idbDelete io ''profilePic'' (photos pg)),
         profilePicUrl := DefaultProfile\<rparr>"
    using None by (simp add: removePhoto_def Let_def)
  moreover have "tracked (pg\<lparr>photos := snd (idbDelete io ''profilePic'' (photos pg)),
         profilePicUrl := DefaultProfile\<rparr>)"
    using tracked_none [OF t None] None by (intro trackedI) simp_all
  ultimately show ?thesis by simp
next
  case (Some u0)
  have "removePhoto io pg =
      pg\<lparr>photos := snd (idbDelete io ''profilePic'' (photos pg)),
         objectUrls := (objectUrls pg)(u0 := None), lastObjectUrlRef := None,
         profilePicUrl := DefaultProfile\<rparr>"
    using Some by (simp add: removePhoto_def Let_def revokeObjectURL_def)
  moreover have "tracked (pg\<lparr>photos := snd (idbDelete io ''profilePic'' (photos pg)),
         objectUrls := (objectUrls pg)(u0 := None), lastObjectUrlRef := None,
         profilePicUrl := DefaultProfile\<rparr>)"
    using tracked_other [OF t Some] by (intro trackedI) (simp_all split: if_splits)
  ultimately show ?thesis by simp
qed

lemma tracked_step: "tracked pg \<Longrightarrow> tracked (step br ev pg)"
  by (cases ev) (simp_all add: tracked_handlePhotoPick tracked_removePhoto)

lemma tracked_foldl: "tracked pg \<Longrightarrow> tracked (foldl (\<lambda>p ev. step br ev p) pg evs)"
  by (induction evs arbitrary: pg) (simp_all add: tracked_step)

lemma tracked_mounted: "tracked (mounted br io evs (initial_page st n))"
  by (simp add: mounted_def tracked_foldl tracked_mount_load tracked_initial)

lemma tracked_unmount:
  assumes t: "tracked pg" shows "live_urls (unmount pg) = {}"
proof (cases "lastObjectUrlRef pg")
  case None
  with tracked_none [OF t None] show ?thesis by (simp add: unmount_def live_urls_def)
next
  case (Some u0)
  with tracked_other [OF t Some] show ?thesis
    by (simp add: unmount_def live_urls_def revokeObjectURL_def)
qed

text \<open>
  Claim C7. After the mount effect and any sequence of uploads (successful or failed) and
  removals, the object URLs that resolve are exactly the one the ref holds, so at most one;
  it is the picture shown; the clean-up on unmount leaves none; and when an upload or a
  removal replaces the URL the ref holds, the replaced URL no longer resolves.
\<close>

theorem one_live_display_reference:
  "live_urls (mounted br io evs (initial_page st n))
      = set_option (lastObjectUrlRef (mounted br io evs (initial_page st n)))
   \<and> card (live_urls (mounted br io evs (initial_page st n))) \<le> 1
   \<and> profilePicUrl (mounted br io evs (initial_page st n))
      = shown_for (lastObjectUrlRef (mounted br io evs (initial_page st n)))
   \<and> live_urls (unmount (mounted br io evs (initial_page st n))) = {}
   \<and> (lastObjectUrlRef (mounted br io evs (initial_page st n)) = Some u
      \<and> lastObjectUrlRef (step br ev (mounted br io evs (initial_page st n))) \<noteq> Some u
      \<longrightarrow> u \<notin> live_urls (step br ev (mounted br io evs (initial_page st n)))
          \<and> objectUrls (step br ev (mounted br io evs (initial_page st n))) u = None)"
proof -
  let ?pg = "mounted br io evs (initial_page st n)"
  have t: "tracked ?pg" by (rule tracked_mounted)
  then have a: "live_urls ?pg = set_option (lastObjectUrlRef ?pg)"
    by (rule tracked_live)
  then have b: "card (live_urls ?pg) \<le> 1"
    by (cases "lastObjectUrlRef ?pg") simp_all
  have c: "live_urls (unmount ?pg) = {}" using t by (rule tracked_unmount)
  have "tracked (step br ev ?pg)" using t by (rule tracked_step)
  then have d: "live_urls (step br ev ?pg) = set_option (lastObjectUrlRef (step br ev ?pg))"
    by (rule tracked_live)
  have e: "u \<notin> live_urls (step br ev ?pg) \<Longrightarrow> objectUrls (step br ev ?pg) u = None"
    by (simp add: live_urls_def)
  have s: "profilePicUrl ?pg = shown_for (lastObjectUrlRef ?pg)" using t by (rule tracked_shown)
  have "lastObjectUrlRef (step br ev ?pg) \<noteq> Some u \<Longrightarrow> u \<notin> live_urls (step br ev ?pg)"
    using d by (cases "lastObjectUrlRef (step br ev ?pg)") simp_all
  with a b c e s show ?thesis by blast
qed

lemma example_page_eq:
  "example_page =
     \<lparr> profilePicUrl = ObjectUrl 0, photoError = [], lastObjectUrlRef = Some 0,
       photos = (\<lambda>k. None)(''profilePic'' := Some (Blob stored_photo)),
       objectUrls = (\<lambda>u. None)(0 := Some stored_photo), nextUrl = Suc 0 \<rparr>"
  by (simp add: example_page_def mounted_def mount_load_def idbGet_def js_or_def initial_page_def
      createObjectURL_def show_url_def)

lemma pick_example:
  "handlePhotoPick example_browser None (example_file 4000 3000 2) example_page =
     \<lparr> profilePicUrl = ObjectUrl (Suc (Suc 0)), photoError = [],
       lastObjectUrlRef = Some (Suc (Suc 0)),
       photos = (\<lambda>k. None)(''profilePic'' :=
          Some (Blob \<lparr>media_type = ''image/jpeg'', bytes = [768, 576, 2]\<rparr>)),
       objectUrls = (\<lambda>u. None)(Suc (Suc 0) :=
          Some \<lparr>media_type = ''image/jpeg'', bytes = [768, 576, 2]\<rparr>),
       nextUrl = Suc (Suc (Suc 0)) \<rparr>"
  by (simp add: example_page_eq handlePhotoPick_def compressFileToBlob_def fileToImage_def
      createObjectURL_def revokeObjectURL_def example_browser_def example_file_def
      drawToCanvas_def Math_round_div_def canvasToBlob_def idbSet_def show_url_def
      fun_upd_twist)

theorem one_live_display_reference_witness:
  "lastObjectUrlRef example_page = Some 0
   \<and> lastObjectUrlRef
        (step example_browser (PhotoPick (example_file 4000 3000 2) None) example_page) = Some 2
   \<and> 0 \<notin> live_urls
        (step example_browser (PhotoPick (example_file 4000 3000 2) None) example_page)
   \<and> 2 \<in> live_urls
        (step example_browser (PhotoPick (example_file 4000 3000 2) None) example_page)
   \<and> live_urls (unmount example_page) = {}"
proof -
  have a: "lastObjectUrlRef example_page = Some 0"
    by (simp add: example_page_eq)
  have b: "lastObjectUrlRef
        (step example_browser (PhotoPick (example_file 4000 3000 2) None) example_page) = Some 2"
    by (simp add: pick_example)
  have c: "2 \<in> live_urls
        (step example_browser (PhotoPick (example_file 4000 3000 2) None) example_page)"
    by (simp add: pick_example live_urls_def)
  from one_live_display_reference [of example_browser None "[]"
      "(\<lambda>k. None)(''profilePic'' := Some (Blob stored_photo))" 0 0
      "PhotoPick (example_file 4000 3000 2) None"] a b c
  show ?thesis by (simp add: example_page_def [symmetric])
qed


section \<open>Failed uploads\<close>

text \<open>An upload that fails while the image is decoded, or while the blob is written to the
  store, leaves the stored entry, the picture shown and the ref as they were and sets the
  message.\<close>

lemma handlePhotoPick_decode_fails:
  assumes "decode br file = None"
  shows "photos (handlePhotoPick br io file pg) = photos pg
    \<and> profilePicUrl (handlePhotoPick br io file pg) = profilePicUrl pg
    \<and> lastObjectUrlRef (handlePhotoPick br io file pg) = lastObjectUrlRef pg
    \<and> photoError (handlePhotoPick br io file pg)
        = ''Failed to save image. Try another image (preferably under ~5MB).''"
  using assms
  by (simp add: handlePhotoPick_def compressFileToBlob_def fileToImage_def createObjectURL_def
      revokeObjectURL_def save_failed_def)

lemma handlePhotoPick_store_fails:
  "photos (handlePhotoPick br (Some f) file pg) = photos pg
    \<and> profilePicUrl (handlePhotoPick br (Some f) file pg) = profilePicUrl pg
    \<and> lastObjectUrlRef (handlePhotoPick br (Some f) file pg) = lastObjectUrlRef pg
    \<and> photoError (handlePhotoPick br (Some f) file pg)
        = ''Failed to save image. Try another image (preferably under ~5MB).''"
  by (simp add: handlePhotoPick_def compressFileToBlob_def fileToImage_def createObjectURL_def
      revokeObjectURL_def save_failed_def idbSet_def split: option.splits)

lemma handlePhotoPick_encode_fails:
  assumes "decode br file = Some img" and "canvasToBlob br (drawToCanvas img 768) = Null"
  shows "photos (handlePhotoPick br None file pg) = (photos pg)(''profilePic'' := Some Null)
    \<and> profilePicUrl (handlePhotoPick br None file pg) = profilePicUrl pg
    \<and> photoError (handlePhotoPick br None file pg)
        = ''Failed to save image. Try another image (preferably under ~5MB).''"
  using assms
  by (simp add: handlePhotoPick_def compressFileToBlob_def fileToImage_def createObjectURL_def
      revokeObjectURL_def save_failed_def idbSet_def)

text \<open>
  Claim C6 fails when the re-encoding fails. \<open>canvasToBlob\<close> resolves with \<open>null\<close> instead of
  rejecting, so \<open>idbSet\<close> writes \<open>null\<close> under \<open>profilePic\<close> before \<open>createObjectURL\<close> throws:
  the message is set and the picture shown is kept, but the photo stored before is gone,
  and the next mount shows the default picture. A picture 2000 wide and 1 high is such an
  upload: its canvas is 768 by 0 and has no pixels.
\<close>

theorem failed_encode_overwrites_stored_photo:
  "photos example_page ''profilePic'' = Some (Blob stored_photo)
   \<and> profilePicUrl example_page = ObjectUrl 0
   \<and> drawToCanvas \<lparr>width = 2000, height = 1, picture = 2\<rparr> 768
       = \<lparr>width = 768, height = 0, picture = 2\<rparr>
   \<and> photoError (handlePhotoPick example_browser None (example_file 2000 1 2) example_page)
       = ''Failed to save image. Try another image (preferably under ~5MB).''
   \<and> profilePicUrl (handlePhotoPick example_browser None (example_file 2000 1 2) example_page)
       = ObjectUrl 0
   \<and> photos (handlePhotoPick example_browser None (example_file 2000 1 2) example_page)
        ''profilePic'' = Some Null
   \<and> mount_load None (initial_page
        (photos (handlePhotoPick example_browser None (example_file 2000 1 2) example_page)) 0)
       = initial_page
        (photos (handlePhotoPick example_browser None (example_file 2000 1 2) example_page)) 0"
  by (simp add: example_page_eq handlePhotoPick_def compressFileToBlob_def fileToImage_def
      createObjectURL_def revokeObjectURL_def example_browser_def example_file_def
      drawToCanvas_def Math_round_div_def canvasToBlob_def idbSet_def save_failed_def
      mount_load_def idbGet_def js_or_def initial_page_def)


section \<open>The object store\<close>

text \<open>
  Claim C8. A put of a blob that succeeds is followed by a get that returns that blob; a
  put succeeds whenever the database works; a delete that succeeds is followed by a get
  that returns \<open>null\<close>; for a key with no entry, get returns \<open>null\<close> and delete succeeds and
  leaves the store as it is; and get and delete are rejected only when the database fails,
  whether an entry exists or not.
\<close>

theorem idb_put_get_delete:
  "(idbSet io key (Blob b) st = (Inr (), st') \<longrightarrow> idbGet None key st' = Inr (Blob b))
   \<and> idbSet None key (Blob b) st = (Inr (), st(key := Some (Blob b)))
   \<and> (idbDelete io key st = (Inr (), st') \<longrightarrow> idbGet None key st' = Inr Null)
   \<and> (st key = None \<longrightarrow> idbGet None key st = Inr Null \<and> idbDelete None key st = (Inr (), st))
   \<and> (idbGet io key st = Inl f \<longleftrightarrow> io = Some f)
   \<and> (fst (idbDelete io key st) = Inl f \<longleftrightarrow> io = Some f)"
  by (cases io) (auto simp: idbSet_def idbGet_def idbDelete_def js_or_def)

theorem idb_put_get_delete_witness:
  "idbSet None ''profilePic'' (Blob stored_photo) (\<lambda>k. None)
      = (Inr (), (\<lambda>k. None)(''profilePic'' := Some (Blob stored_photo)))
   \<and> idbGet None ''profilePic'' ((\<lambda>k. None)(''profilePic'' := Some (Blob stored_photo)))
      = Inr (Blob stored_photo)
   \<and> idbDelete None ''profilePic'' ((\<lambda>k. None)(''profilePic'' := Some (Blob stored_photo)))
      = (Inr (), (\<lambda>k. None))
   \<and> idbGet None ''profilePic'' (\<lambda>k. None) = Inr Null
   \<and> idbDelete None ''profilePic'' (\<lambda>k. None) = (Inr (), (\<lambda>k. None))"
  using idb_put_get_delete [of None "''profilePic''" stored_photo "\<lambda>k. None"
      "(\<lambda>k. None)(''profilePic'' := Some (Blob stored_photo))" OpenFails]
    idb_put_get_delete [of None "''profilePic''" stored_photo
      "(\<lambda>k. None)(''profilePic'' := Some (Blob stored_photo))" "\<lambda>k. None" OpenFails]
  by (simp add: idbSet_def idbDelete_def)

text \<open>
  Claim C10. A get of a key whose stored value is falsy returns \<open>null\<close>, as does a get of a
  key with no entry, so the two cannot be told apart; a truthy value is returned as it is.
\<close>

theorem idbGet_falsy_is_absent:
  "(\<not> truthy v \<longrightarrow> idbGet None key (st(key := Some v)) = Inr Null)
   \<and> idbGet None key (st(key := None)) = Inr Null
   \<and> (\<not> truthy v \<longrightarrow> idbGet io key (st(key := Some v)) = idbGet io key (st(key := None)))
   \<and> (truthy v \<longrightarrow> idbGet None key (st(key := Some v)) = Inr v)"
  by (cases io) (simp_all add: idbGet_def js_or_def)

theorem idbGet_falsy_is_absent_witness:
  "\<not> truthy (JString [])
   \<and> idbGet None ''profilePic'' ((\<lambda>k. None)(''profilePic'' := Some (JString []))) = Inr Null
   \<and> \<not> truthy Null
   \<and> idbGet None ''profilePic'' ((\<lambda>k. None)(''profilePic'' := Some Null)) = Inr Null
   \<and> idbGet None ''profilePic'' (\<lambda>k. None) = Inr Null"
  using idbGet_falsy_is_absent [of "JString []" "''profilePic''" "\<lambda>k. None" None]
    idbGet_falsy_is_absent [of Null "''profilePic''" "\<lambda>k. None" None]
  by simp

end
